theory Spec2Isabelle
  imports Complex_Main "HOL-Library.Multiset"
begin

section \<open>The stopwatch entity, its views and its patches\<close>

text \<open>
  Modelled from the spec: the base class \<^verbatim>\<open>GeneralEntity\<close> is not among the sources; the
  two columns of it that the service depends on are the store-assigned identifier
  (\<open>sw_id\<close>) and the soft-delete marker (\<open>deletedAt\<close>). The other fields are those of
  \<^verbatim>\<open>stopwatch.entity.ts\<close>.

  Numbers that the code keeps integral (the identifier, the whole seconds of
  \<open>elapsed\<close>) are \<open>int\<close>; a \<^verbatim>\<open>Date\<close> is the integer \<^verbatim>\<open>getTime()\<close> returns,
  milliseconds since the epoch; \<^verbatim>\<open>null\<close> is \<open>None\<close>.
\<close>

record stopwatch =
  sw_id :: int
  name :: string
  isRunning :: bool
  elapsed :: int
  startTime :: "int option"
  deletedAt :: "int option"

text \<open>The read view, \<^verbatim>\<open>StopwatchDto\<close>.\<close>

record stopwatchDto =
  dto_id :: int
  dto_name :: string
  dto_elapsed :: int
  dto_isRunning :: bool

text \<open>\<^verbatim>\<open>CreateStopwatchDto\<close> and \<^verbatim>\<open>UpdateStopwatchDto\<close>; an optional field that the
  request leaves out is \<open>None\<close>.\<close>

record createStopwatchDto =
  new_name :: string

record updateStopwatchDto =
  upd_name :: "string option"
  upd_elapsed :: "int option"

datatype error = NotFoundException | BadRequestException

section \<open>The clock\<close>

text \<open>
  Every \<^verbatim>\<open>new Date()\<close> reads the wall clock. A clock is the sequence of the readings
  still to come, in milliseconds: reading it returns the first one and leaves the rest.
  Nothing relates one reading to the next.
\<close>

type_synonym clock = "nat \<Rightarrow> int"

definition newDate :: "clock \<Rightarrow> int \<times> clock" where
  "newDate clk = (clk 0, \<lambda>n. clk (Suc n))"

text \<open>A clock given by its first readings; once they are used up it stays at \<open>d\<close>.\<close>

fun readings :: "int \<Rightarrow> int list \<Rightarrow> clock" where
  "readings d [] n = d"
| "readings d (t # ts) 0 = t"
| "readings d (t # ts) (Suc n) = readings d ts n"

section \<open>The elapsed-time computation and the read view\<close>

text \<open>
  \<^verbatim>\<open>calculateElapsed\<close>, lines 171 to 180. The quotient by 1000 and the sum are taken in
  the reals, where the source computes in double precision; the two agree as long
  as the values stay far below \<open>2^53\<close>.
\<close>

definition calculateElapsed :: "stopwatch \<Rightarrow> clock \<Rightarrow> int \<times> clock" where
  "calculateElapsed stopwatch clk =
     (if \<not> isRunning stopwatch then (elapsed stopwatch, clk)
      else
        let (currentTime, clk') = newDate clk;
            startTime' = (case startTime stopwatch of Some t \<Rightarrow> t | None \<Rightarrow> currentTime);
            timeDifference = (of_int (currentTime - startTime') :: real) / 1000
        in (\<lfloor>of_int (elapsed stopwatch) + timeDifference\<rfloor>, clk'))"

definition toDto :: "stopwatch \<Rightarrow> clock \<Rightarrow> stopwatchDto \<times> clock" where
  "toDto stopwatch clk =
     (let (e, clk') = calculateElapsed stopwatch clk
      in (\<lparr>dto_id = sw_id stopwatch, dto_name = name stopwatch,
           dto_elapsed = e, dto_isRunning = isRunning stopwatch\<rparr>, clk'))"

section \<open>The record store\<close>

text \<open>
  Modelled from the spec: the store collaborator is the ORM repository, which is not
  part of the sources. Its contract is the one of section 6 of the specification
  (\<open>findById\<close>, \<open>findAllOrdered\<close>, \<open>save\<close>, \<open>softDelete\<close>), with the column defaults
  that \<^verbatim>\<open>stopwatch.entity.ts\<close> declares. The table is the list of its rows, deleted ones
  included, and \<open>nextId\<close> is the next value of the identifier sequence.
\<close>

record store =
  rows :: "stopwatch list"
  nextId :: int

text \<open>Modelled from the spec: \<open>findById\<close>, called as \<^verbatim>\<open>findOne({ where: { id } })\<close>,
  gives the live row with this identifier, if any.\<close>

definition findOne :: "int \<Rightarrow> store \<Rightarrow> stopwatch option" where
  "findOne i s = find (\<lambda>r. sw_id r = i \<and> deletedAt r = None) (rows s)"

text \<open>Modelled from the spec: \<open>findAllOrdered\<close>, called as
  \<^verbatim>\<open>find({ order: { id: 'ASC' } })\<close>, gives the live rows by ascending identifier.\<close>

definition findOrdered :: "store \<Rightarrow> stopwatch list" where
  "findOrdered s = sort_key sw_id (filter (\<lambda>r. deletedAt r = None) (rows s))"

text \<open>Modelled from the spec: \<open>save\<close> of an entity that carries its identifier
  overwrites the row of that identifier (and inserts the entity when there is no such
  row).\<close>

definition save :: "stopwatch \<Rightarrow> store \<Rightarrow> store" where
  "save e s =
     (if sw_id e \<in> set (map sw_id (rows s))
      then s\<lparr>rows := map (\<lambda>r. if sw_id r = sw_id e then e else r) (rows s)\<rparr>
      else s\<lparr>rows := rows s @ [e]\<rparr>)"

text \<open>Modelled from the spec: \<open>save\<close> of a \<^verbatim>\<open>CreateStopwatchDto\<close>, which has no
  identifier, inserts a row with the next identifier and the defaults of the columns
  (\<open>isRunning = false\<close>, \<open>elapsed = 0\<close>, \<open>startTime\<close> null) and returns the inserted
  entity.\<close>

definition saveNew :: "createStopwatchDto \<Rightarrow> store \<Rightarrow> stopwatch \<times> store" where
  "saveNew dto s =
     (let e = \<lparr>sw_id = nextId s, name = new_name dto, isRunning = False, elapsed = 0,
                startTime = None, deletedAt = None\<rparr>
      in (e, s\<lparr>rows := rows s @ [e], nextId := nextId s + 1\<rparr>))"

text \<open>Modelled from the spec: \<open>softDelete\<close>, called as \<^verbatim>\<open>softDelete({ id })\<close>, marks
  the rows of this identifier deleted at the store's own time \<open>t\<close>; nothing is
  removed.\<close>

definition softDelete :: "int \<Rightarrow> int \<Rightarrow> store \<Rightarrow> store" where
  "softDelete i t s =
     s\<lparr>rows := map (\<lambda>r. if sw_id r = i then r\<lparr>deletedAt := Some t\<rparr> else r) (rows s)\<rparr>"

section \<open>The service\<close>

text \<open>
  The operations of \<^verbatim>\<open>StopwatchService\<close>. Each takes the store and the clock and
  returns its result with the store it leaves behind; an exception is the \<open>Inl\<close> of the
  result, thrown before anything is written.
\<close>

fun mapToDto :: "stopwatch list \<Rightarrow> clock \<Rightarrow> stopwatchDto list" where
  "mapToDto [] clk = []"
| "mapToDto (stopwatch # stopwatches) clk =
     fst (toDto stopwatch clk) # mapToDto stopwatches (snd (toDto stopwatch clk))"

definition findAll :: "store \<Rightarrow> clock \<Rightarrow> stopwatchDto list" where
  "findAll s clk = mapToDto (findOrdered s) clk"

definition create :: "createStopwatchDto \<Rightarrow> store \<Rightarrow> clock \<Rightarrow> stopwatchDto \<times> store" where
  "create createDto s clk =
     (let (saved, s') = saveNew createDto s in (fst (toDto saved clk), s'))"

definition start :: "int \<Rightarrow> store \<Rightarrow> clock \<Rightarrow> (error + stopwatchDto) \<times> store" where
  "start i s clk =
     (case findOne i s of
        None \<Rightarrow> (Inl NotFoundException, s)
      | Some stopwatch \<Rightarrow>
          if isRunning stopwatch then (Inl BadRequestException, s)
          else
            let (now, clk') = newDate clk;
                started = stopwatch\<lparr>isRunning := True, startTime := Some now\<rparr>
            in (Inr (fst (toDto started clk')), save started s))"

definition stop :: "int \<Rightarrow> store \<Rightarrow> clock \<Rightarrow> (error + stopwatchDto) \<times> store" where
  "stop i s clk =
     (case findOne i s of
        None \<Rightarrow> (Inl NotFoundException, s)
      | Some stopwatch \<Rightarrow>
          if \<not> isRunning stopwatch then (Inl BadRequestException, s)
          else
            let (e, clk') = calculateElapsed stopwatch clk;
                stopped = stopwatch\<lparr>elapsed := e, isRunning := False, startTime := None\<rparr>
            in (Inr (fst (toDto stopped clk')), save stopped s))"

text \<open>The test \<^verbatim>\<open>updateDto.elapsed && ...\<close> of line 123 is on the truthiness of a number
  that may be missing: a missing one and zero are both falsy.\<close>

fun truthy :: "int option \<Rightarrow> bool" where
  "truthy None = False"
| "truthy (Some n) = (n \<noteq> 0)"

text \<open>The spread \<^verbatim>\<open>{ ...stopwatch, ...updateDto }\<close>: the fields the patch has win.\<close>

definition patch :: "stopwatch \<Rightarrow> updateStopwatchDto \<Rightarrow> stopwatch" where
  "patch stopwatch updateDto =
     stopwatch\<lparr>name := (case upd_name updateDto of Some n \<Rightarrow> n | None \<Rightarrow> name stopwatch),
               elapsed := (case upd_elapsed updateDto of Some e \<Rightarrow> e | None \<Rightarrow> elapsed stopwatch)\<rparr>"

definition update ::
  "int \<Rightarrow> updateStopwatchDto \<Rightarrow> store \<Rightarrow> clock \<Rightarrow> (error + stopwatchDto) \<times> store" where
  "update i updateDto s clk =
     (case findOne i s of
        None \<Rightarrow> (Inl NotFoundException, s)
      | Some stopwatch \<Rightarrow>
          if truthy (upd_elapsed updateDto) \<and> isRunning stopwatch
          then (Inl BadRequestException, s)
          else
            let patchedStopwatch = patch stopwatch updateDto
            in (Inr (fst (toDto patchedStopwatch clk)), save patchedStopwatch s))"

text \<open>\<open>t\<close> is the time at which the store marks the row.\<close>

definition delete :: "int \<Rightarrow> store \<Rightarrow> int \<Rightarrow> (error + string) \<times> store" where
  "delete i s t =
     (case findOne i s of
        None \<Rightarrow> (Inl NotFoundException, s)
      | Some stopwatch \<Rightarrow>
          if isRunning stopwatch then (Inl BadRequestException, s)
          else (Inr ''ok'', softDelete i t s))"

text \<open>The invariant of the data model, on one row and on the whole table.\<close>

definition row_inv :: "stopwatch \<Rightarrow> bool" where
  "row_inv r = (isRunning r \<longleftrightarrow> startTime r \<noteq> None)"

definition store_inv :: "store \<Rightarrow> bool" where
  "store_inv s = list_all row_inv (rows s)"

text \<open>The clock after \<open>k\<close> readings have been taken from it.\<close>

definition later :: "nat \<Rightarrow> clock \<Rightarrow> clock" where
  "later k clk = (\<lambda>n. clk (n + k))"

section \<open>Example data\<close>

text \<open>A stopwatch named \<open>A\<close> with identifier 1, stopped or running, and the store that
  holds one row; the concrete instances below are stated on them.\<close>

abbreviation A_stopped :: "int \<Rightarrow> stopwatch" where
  "A_stopped e \<equiv> \<lparr>sw_id = 1, name = ''A'', isRunning = False, elapsed = e,
     startTime = None, deletedAt = None\<rparr>"

abbreviation A_running :: "int \<Rightarrow> int \<Rightarrow> stopwatch" where
  "A_running e t \<equiv> \<lparr>sw_id = 1, name = ''A'', isRunning = True, elapsed = e,
     startTime = Some t, deletedAt = None\<rparr>"

abbreviation one_row :: "stopwatch \<Rightarrow> store" where
  "one_row r \<equiv> \<lparr>rows = [r], nextId = 2\<rparr>"

section \<open>Properties of the elapsed-time computation\<close>

lemma newDate_readings [simp]: "newDate (readings d (t # ts)) = (t, readings d ts)"
  by (simp add: newDate_def)

lemma newDate_readings_Nil [simp]: "newDate (readings d []) = (d, readings d [])"
  by (simp add: newDate_def fun_eq_iff)

lemma floor_seconds: "\<lfloor>of_int e + (of_int d :: real) / 1000\<rfloor> = e + d div 1000"
proof -
  have "\<lfloor>of_int e + (of_int d :: real) / 1000\<rfloor> = e + \<lfloor>(of_int d :: real) / of_int 1000\<rfloor>"
    by simp
  also have "\<dots> = e + d div 1000"
    by (simp only: floor_divide_of_int_eq)
  finally show ?thesis .
qed

lemma floor_seconds_diff:
  "\<lfloor>(of_int a - of_int b :: real) / 1000\<rfloor> = (a - b) div 1000"
  using floor_seconds [of 0 "a - b"] by simp

lemma calculateElapsed_stopped:
  "\<not> isRunning sw \<Longrightarrow> calculateElapsed sw clk = (elapsed sw, clk)"
  by (simp add: calculateElapsed_def)

lemma calculateElapsed_running:
  "isRunning sw \<Longrightarrow> startTime sw = Some st \<Longrightarrow>
   calculateElapsed sw clk = (elapsed sw + (clk 0 - st) div 1000, \<lambda>n. clk (Suc n))"
  by (simp add: calculateElapsed_def newDate_def floor_seconds_diff)

lemma calculateElapsed_running_null:
  "isRunning sw \<Longrightarrow> startTime sw = None \<Longrightarrow>
   calculateElapsed sw clk = (elapsed sw, \<lambda>n. clk (Suc n))"
  by (simp add: calculateElapsed_def newDate_def)

text \<open>
  C1, as amended. The computation returns the stored \<open>elapsed\<close> for a stopwatch that is
  not running, and \<open>elapsed + floor(seconds between startTime and now)\<close> for a running
  one. The delta is not clamped: the result is at least the stored \<open>elapsed\<close> exactly
  when the current instant is not earlier than \<open>startTime\<close>.
\<close>

theorem calculateElapsed_unclamped:
  "(\<not> isRunning sw \<longrightarrow> fst (calculateElapsed sw clk) = elapsed sw) \<and>
   (isRunning sw \<and> startTime sw = Some st \<longrightarrow>
      fst (calculateElapsed sw clk) = elapsed sw + \<lfloor>(of_int (clk 0 - st) :: real) / 1000\<rfloor> \<and>
      (elapsed sw \<le> fst (calculateElapsed sw clk) \<longleftrightarrow> st \<le> clk 0))"
proof (intro conjI impI)
  assume "\<not> isRunning sw"
  then show "fst (calculateElapsed sw clk) = elapsed sw"
    by (simp add: calculateElapsed_stopped)
next
  assume r: "isRunning sw \<and> startTime sw = Some st"
  have fl: "\<lfloor>(of_int (clk 0 - st) :: real) / 1000\<rfloor> = (clk 0 - st) div 1000"
    using floor_seconds [of 0 "clk 0 - st"] by (simp del: of_int_diff)
  from r show "fst (calculateElapsed sw clk) = elapsed sw + \<lfloor>(of_int (clk 0 - st) :: real) / 1000\<rfloor>"
    by (simp add: calculateElapsed_running fl del: of_int_diff)
  have "0 \<le> (clk 0 - st) div 1000 \<longleftrightarrow> st \<le> clk 0"
    by (simp add: pos_imp_zdiv_nonneg_iff)
  with r show "elapsed sw \<le> fst (calculateElapsed sw clk) \<longleftrightarrow> st \<le> clk 0"
    by (simp add: calculateElapsed_running)
qed

theorem calculateElapsed_unclamped_witness:
  "isRunning \<lparr>sw_id = 1, name = ''A'', isRunning = True, elapsed = 10,
      startTime = Some 2000, deletedAt = None\<rparr> \<and>
   fst (calculateElapsed \<lparr>sw_id = 1, name = ''A'', isRunning = True, elapsed = 10,
      startTime = Some 2000, deletedAt = None\<rparr> (readings 7500 [])) = 15 \<and>
   \<not> isRunning \<lparr>sw_id = 1, name = ''A'', isRunning = False, elapsed = 10,
      startTime = None, deletedAt = None\<rparr> \<and>
   fst (calculateElapsed \<lparr>sw_id = 1, name = ''A'', isRunning = False, elapsed = 10,
      startTime = None, deletedAt = None\<rparr> (readings 7500 [])) = 10"
  using calculateElapsed_unclamped [of "\<lparr>sw_id = 1, name = ''A'', isRunning = True, elapsed = 10,
      startTime = Some 2000, deletedAt = None\<rparr>" "readings 7500 []" 2000]
    calculateElapsed_unclamped [of "\<lparr>sw_id = 1, name = ''A'', isRunning = False, elapsed = 10,
      startTime = None, deletedAt = None\<rparr>" "readings 7500 []" 0]
  by simp

text \<open>
  C1 as stated fails: with a start time five seconds after the current instant the
  running stopwatch of stored \<open>elapsed = 10\<close> reports 5, below the stored value.
\<close>

theorem calculateElapsed_clamp_counterexample:
  "fst (calculateElapsed \<lparr>sw_id = 1, name = ''A'', isRunning = True, elapsed = 10,
      startTime = Some 5000, deletedAt = None\<rparr> (readings 0 [])) = 5 \<and>
   fst (calculateElapsed \<lparr>sw_id = 1, name = ''A'', isRunning = True, elapsed = 10,
      startTime = Some 5000, deletedAt = None\<rparr> (readings 0 []))
     < elapsed \<lparr>sw_id = 1, name = ''A'', isRunning = True, elapsed = 10,
      startTime = Some 5000, deletedAt = None\<rparr>"
  by (simp add: calculateElapsed_def)

text \<open>
  C10. For a record with \<open>isRunning = true\<close> and \<open>startTime = null\<close> the computation
  takes the current instant as the start time, so the difference is zero and the result
  is the floor of the stored \<open>elapsed\<close>, which is \<open>elapsed\<close> itself; one clock reading is
  consumed.
\<close>

theorem calculateElapsed_null_startTime:
  "isRunning sw \<and> startTime sw = None \<longrightarrow>
     fst (calculateElapsed sw clk) = \<lfloor>of_int (elapsed sw) :: real\<rfloor> \<and>
     fst (calculateElapsed sw clk) = elapsed sw \<and>
     snd (calculateElapsed sw clk) = snd (newDate clk)"
  by (simp add: calculateElapsed_def newDate_def)

theorem calculateElapsed_null_startTime_witness:
  "isRunning \<lparr>sw_id = 3, name = ''B'', isRunning = True, elapsed = 42,
      startTime = None, deletedAt = None\<rparr> \<and>
   startTime \<lparr>sw_id = 3, name = ''B'', isRunning = True, elapsed = 42,
      startTime = None, deletedAt = None\<rparr> = None \<and>
   fst (calculateElapsed \<lparr>sw_id = 3, name = ''B'', isRunning = True, elapsed = 42,
      startTime = None, deletedAt = None\<rparr> (readings 99000 [])) = 42"
  using calculateElapsed_null_startTime [of "\<lparr>sw_id = 3, name = ''B'', isRunning = True,
      elapsed = 42, startTime = None, deletedAt = None\<rparr>" "readings 99000 []"]
  by simp

section \<open>The store: looking a record up after a write\<close>

lemma findOne_None_iff:
  "findOne i s = None \<longleftrightarrow> \<not> (\<exists>r \<in> set (rows s). sw_id r = i \<and> deletedAt r = None)"
  by (auto simp: findOne_def find_None_iff)

lemma findOne_SomeD:
  "findOne i s = Some r \<Longrightarrow> r \<in> set (rows s) \<and> sw_id r = i \<and> deletedAt r = None"
  by (auto simp: findOne_def find_Some_iff)

lemma find_overwritten:
  "\<exists>r \<in> set xs. sw_id r = i \<and> deletedAt r = None \<Longrightarrow> sw_id e = i \<Longrightarrow> deletedAt e = None \<Longrightarrow>
   find (\<lambda>r. sw_id r = i \<and> deletedAt r = None) (map (\<lambda>r. if sw_id r = i then e else r) xs) = Some e"
  by (induction xs) auto

lemma rows_save_found:
  "findOne i s = Some r \<Longrightarrow> sw_id e = i \<Longrightarrow>
   rows (save e s) = map (\<lambda>x. if sw_id x = i then e else x) (rows s)"
proof -
  assume f: "findOne i s = Some r" and e: "sw_id e = i"
  from findOne_SomeD [OF f] have "r \<in> set (rows s)" and "sw_id r = i" by simp_all
  with e have "sw_id e \<in> set (map sw_id (rows s))"
    unfolding set_map by (intro image_eqI [where x = r]) simp_all
  with e show ?thesis by (simp add: save_def)
qed

lemma nextId_save [simp]: "nextId (save e s) = nextId s"
  by (simp add: save_def)

lemma findOne_save:
  "findOne i s = Some r \<Longrightarrow> sw_id e = i \<Longrightarrow> deletedAt e = None \<Longrightarrow> findOne i (save e s) = Some e"
  using find_overwritten [of "rows s" i e] rows_save_found [of i s r e] findOne_SomeD [of i s r]
  by (auto simp: findOne_def)

lemma find_softDeleted:
  "find (\<lambda>r. sw_id r = i \<and> deletedAt r = None)
     (map (\<lambda>r. if sw_id r = i then r\<lparr>deletedAt := Some t\<rparr> else r) xs) = None"
  by (induction xs) auto

lemma findOne_softDelete: "findOne i (softDelete i t s) = None"
  by (simp add: findOne_def softDelete_def find_softDeleted)

subsection \<open>The branches of each operation\<close>

lemma toDto_fst:
  "fst (toDto r clk) = \<lparr>dto_id = sw_id r, dto_name = name r,
     dto_elapsed = fst (calculateElapsed r clk), dto_isRunning = isRunning r\<rparr>"
  by (simp add: toDto_def split: prod.splits)

lemma toDto_snd: "snd (toDto r clk) = snd (calculateElapsed r clk)"
  by (simp add: toDto_def split: prod.splits)

lemma start_None: "findOne i s = None \<Longrightarrow> start i s clk = (Inl NotFoundException, s)"
  by (simp add: start_def)

lemma start_running:
  "findOne i s = Some r \<Longrightarrow> isRunning r \<Longrightarrow> start i s clk = (Inl BadRequestException, s)"
  by (simp add: start_def)

lemma start_stopped:
  "findOne i s = Some r \<Longrightarrow> \<not> isRunning r \<Longrightarrow>
   start i s clk =
     (Inr (fst (toDto (r\<lparr>isRunning := True, startTime := Some (clk 0)\<rparr>) (\<lambda>n. clk (Suc n)))),
      save (r\<lparr>isRunning := True, startTime := Some (clk 0)\<rparr>) s)"
  by (simp add: start_def newDate_def Let_def)

lemma stop_None: "findOne i s = None \<Longrightarrow> stop i s clk = (Inl NotFoundException, s)"
  by (simp add: stop_def)

lemma stop_stopped:
  "findOne i s = Some r \<Longrightarrow> \<not> isRunning r \<Longrightarrow> stop i s clk = (Inl BadRequestException, s)"
  by (simp add: stop_def)

lemma stop_running:
  "findOne i s = Some r \<Longrightarrow> isRunning r \<Longrightarrow>
   stop i s clk =
     (Inr \<lparr>dto_id = sw_id r, dto_name = name r,
           dto_elapsed = fst (calculateElapsed r clk), dto_isRunning = False\<rparr>,
      save (r\<lparr>elapsed := fst (calculateElapsed r clk), isRunning := False, startTime := None\<rparr>) s)"
  by (simp add: stop_def toDto_fst calculateElapsed_stopped split: prod.splits)

lemma start_cases:
  obtains (missing) "findOne i s = None" "start i s clk = (Inl NotFoundException, s)"
  | (running) r where "findOne i s = Some r" "isRunning r" "start i s clk = (Inl BadRequestException, s)"
  | (ok) r where "findOne i s = Some r" "\<not> isRunning r"
      "start i s clk =
       (Inr (fst (toDto (r\<lparr>isRunning := True, startTime := Some (clk 0)\<rparr>) (\<lambda>n. clk (Suc n)))),
        save (r\<lparr>isRunning := True, startTime := Some (clk 0)\<rparr>) s)"
proof (cases "findOne i s")
  case None
  then show ?thesis using missing start_None by blast
next
  case (Some r)
  then show ?thesis using running ok start_running start_stopped by (cases "isRunning r") blast+
qed

lemma stop_cases:
  obtains (missing) "findOne i s = None" "stop i s clk = (Inl NotFoundException, s)"
  | (stopped) r where "findOne i s = Some r" "\<not> isRunning r" "stop i s clk = (Inl BadRequestException, s)"
  | (ok) r where "findOne i s = Some r" "isRunning r"
      "stop i s clk =
       (Inr \<lparr>dto_id = sw_id r, dto_name = name r,
             dto_elapsed = fst (calculateElapsed r clk), dto_isRunning = False\<rparr>,
        save (r\<lparr>elapsed := fst (calculateElapsed r clk), isRunning := False, startTime := None\<rparr>) s)"
proof (cases "findOne i s")
  case None
  then show ?thesis using missing stop_None by blast
next
  case (Some r)
  then show ?thesis using stopped ok stop_stopped stop_running by (cases "isRunning r") blast+
qed

lemma update_None: "findOne i s = None \<Longrightarrow> update i p s clk = (Inl NotFoundException, s)"
  by (simp add: update_def)

lemma update_rejected:
  "findOne i s = Some r \<Longrightarrow> truthy (upd_elapsed p) \<Longrightarrow> isRunning r \<Longrightarrow>
   update i p s clk = (Inl BadRequestException, s)"
  by (simp add: update_def)

lemma update_merged:
  "findOne i s = Some r \<Longrightarrow> \<not> (truthy (upd_elapsed p) \<and> isRunning r) \<Longrightarrow>
   update i p s clk = (Inr (fst (toDto (patch r p) clk)), save (patch r p) s)"
  by (simp add: update_def Let_def)

lemma update_cases:
  obtains (missing) "findOne i s = None" "update i p s clk = (Inl NotFoundException, s)"
  | (rejected) r where "findOne i s = Some r" "truthy (upd_elapsed p)" "isRunning r"
      "update i p s clk = (Inl BadRequestException, s)"
  | (ok) r where "findOne i s = Some r" "\<not> (truthy (upd_elapsed p) \<and> isRunning r)"
      "update i p s clk = (Inr (fst (toDto (patch r p) clk)), save (patch r p) s)"
proof (cases "findOne i s")
  case None
  then show ?thesis using missing update_None by blast
next
  case (Some r)
  then show ?thesis using rejected ok update_rejected update_merged
    by (cases "truthy (upd_elapsed p) \<and> isRunning r") blast+
qed

lemma delete_None: "findOne i s = None \<Longrightarrow> delete i s t = (Inl NotFoundException, s)"
  by (simp add: delete_def)

lemma delete_running:
  "findOne i s = Some r \<Longrightarrow> isRunning r \<Longrightarrow> delete i s t = (Inl BadRequestException, s)"
  by (simp add: delete_def)

lemma delete_stopped:
  "findOne i s = Some r \<Longrightarrow> \<not> isRunning r \<Longrightarrow> delete i s t = (Inr ''ok'', softDelete i t s)"
  by (simp add: delete_def)

lemma delete_cases:
  obtains (missing) "findOne i s = None" "delete i s t = (Inl NotFoundException, s)"
  | (running) r where "findOne i s = Some r" "isRunning r" "delete i s t = (Inl BadRequestException, s)"
  | (ok) r where "findOne i s = Some r" "\<not> isRunning r" "delete i s t = (Inr ''ok'', softDelete i t s)"
proof (cases "findOne i s")
  case None
  then show ?thesis using missing delete_None by blast
next
  case (Some r)
  then show ?thesis using running ok delete_running delete_stopped by (cases "isRunning r") blast+
qed

lemma create_eq:
  "create d s clk =
     (\<lparr>dto_id = nextId s, dto_name = new_name d, dto_elapsed = 0, dto_isRunning = False\<rparr>,
      s\<lparr>rows := rows s @ [\<lparr>sw_id = nextId s, name = new_name d, isRunning = False, elapsed = 0,
                            startTime = None, deletedAt = None\<rparr>],
        nextId := nextId s + 1\<rparr>)"
  by (simp add: create_def saveNew_def Let_def toDto_fst calculateElapsed_stopped)

lemma patch_sel [simp]:
  "sw_id (patch r p) = sw_id r" "isRunning (patch r p) = isRunning r"
  "startTime (patch r p) = startTime r" "deletedAt (patch r p) = deletedAt r"
  by (simp_all add: patch_def)

subsection \<open>Records that an operation does not address\<close>

lemma find_overwrite_other:
  "j \<noteq> sw_id e \<Longrightarrow>
   find (\<lambda>r. sw_id r = j \<and> deletedAt r = None) (map (\<lambda>r. if sw_id r = sw_id e then e else r) xs)
     = find (\<lambda>r. sw_id r = j \<and> deletedAt r = None) xs"
  by (induction xs) auto

lemma find_append_other:
  "\<not> P e \<Longrightarrow> find P (xs @ [e]) = find P xs"
  by (induction xs) auto

lemma findOne_save_other: "j \<noteq> sw_id e \<Longrightarrow> findOne j (save e s) = findOne j s"
  by (simp add: findOne_def save_def find_overwrite_other find_append_other)

lemma find_softDelete_other:
  "j \<noteq> i \<Longrightarrow>
   find (\<lambda>r. sw_id r = j \<and> deletedAt r = None)
     (map (\<lambda>r. if sw_id r = i then r\<lparr>deletedAt := Some t\<rparr> else r) xs)
     = find (\<lambda>r. sw_id r = j \<and> deletedAt r = None) xs"
  by (induction xs) auto

lemma findOne_softDelete_other: "j \<noteq> i \<Longrightarrow> findOne j (softDelete i t s) = findOne j s"
  by (simp add: findOne_def softDelete_def find_softDelete_other)

lemma find_append_Some: "find P xs = Some r \<Longrightarrow> find P (xs @ ys) = Some r"
  by (induction xs) (auto split: if_splits)

lemma find_append_None: "find P xs = None \<Longrightarrow> find P (xs @ ys) = find P ys"
  by (induction xs) (auto split: if_splits)

lemma start_keeps_elapsed:
  assumes "findOne j (snd (start i s clk)) = Some r'"
  shows "\<exists>r. findOne j s = Some r \<and> elapsed r' = elapsed r"
proof (cases rule: start_cases [of i s clk])
  case missing
  with assms show ?thesis by simp
next
  case (running r)
  with assms show ?thesis by simp
next
  case (ok r)
  let ?e = "r\<lparr>isRunning := True, startTime := Some (clk 0)\<rparr>"
  from ok(1) have id: "sw_id r = i" and live: "deletedAt r = None"
    using findOne_SomeD [of i s r] by simp_all
  show ?thesis
  proof (cases "j = i")
    case True
    have "findOne i (save ?e s) = Some ?e"
      using ok(1) id live by (simp add: findOne_save [of i s r])
    with assms ok True show ?thesis by auto
  next
    case False
    with id have "findOne j (save ?e s) = findOne j s"
      by (simp add: findOne_save_other)
    with assms ok show ?thesis by simp
  qed
qed

lemma delete_keeps_elapsed:
  assumes "findOne j (snd (delete i s t)) = Some r'"
  shows "findOne j s = Some r'"
proof (cases rule: delete_cases [of i s t])
  case missing
  with assms show ?thesis by simp
next
  case (running r)
  with assms show ?thesis by simp
next
  case (ok r)
  show ?thesis
  proof (cases "j = i")
    case True
    with assms ok show ?thesis by (simp add: findOne_softDelete)
  next
    case False
    with assms ok show ?thesis by (simp add: findOne_softDelete_other)
  qed
qed

lemma create_keeps_elapsed:
  assumes "findOne j (snd (create d s clk)) = Some r'"
  shows "findOne j s = Some r' \<or> (findOne j s = None \<and> elapsed r' = 0)"
proof (cases "findOne j s")
  case None
  then have "find (\<lambda>r. sw_id r = j \<and> deletedAt r = None) (rows s) = None"
    by (simp add: findOne_def)
  from find_append_None [OF this] assms None show ?thesis
    by (auto simp: create_eq findOne_def split: if_splits)
next
  case (Some r)
  then have "find (\<lambda>r. sw_id r = j \<and> deletedAt r = None) (rows s) = Some r"
    by (simp add: findOne_def)
  from find_append_Some [OF this] assms Some show ?thesis
    by (simp add: create_eq findOne_def)
qed

lemma update_keeps_elapsed:
  assumes "findOne j (snd (update i p s clk)) = Some r'"
  shows "\<exists>r. findOne j s = Some r \<and> (elapsed r' = elapsed r \<or> upd_elapsed p = Some (elapsed r'))"
proof (cases rule: update_cases [of i s p clk])
  case missing
  with assms show ?thesis by simp
next
  case (rejected r)
  with assms show ?thesis by simp
next
  case (ok r)
  from ok(1) have id: "sw_id r = i" and live: "deletedAt r = None"
    using findOne_SomeD [of i s r] by simp_all
  show ?thesis
  proof (cases "j = i")
    case True
    have "findOne i (save (patch r p) s) = Some (patch r p)"
      using ok(1) id live by (simp add: findOne_save [of i s r])
    with assms ok True have "r' = patch r p" by simp
    then have "elapsed r' = elapsed r \<or> upd_elapsed p = Some (elapsed r')"
      by (simp add: patch_def split: option.splits)
    with ok(1) True show ?thesis by simp
  next
    case False
    with id have "findOne j (save (patch r p) s) = findOne j s"
      by (simp add: findOne_save_other)
    with assms ok show ?thesis by simp
  qed
qed

subsection \<open>Views of a list of records\<close>

lemma toDto_clock:
  "snd (toDto r clk) = (if isRunning r then later 1 clk else clk)"
  by (simp add: toDto_snd calculateElapsed_def newDate_def later_def Let_def)

lemma later_later: "later a (later b clk) = later (a + b) clk"
  by (simp add: later_def add.assoc)

lemma later_0 [simp]: "later 0 clk = clk"
  by (simp add: later_def)

lemma map_dto_id_mapToDto: "map dto_id (mapToDto xs clk) = map sw_id xs"
  by (induction xs arbitrary: clk) (simp_all add: toDto_fst)

lemma length_mapToDto: "length (mapToDto xs clk) = length xs"
  by (induction xs arbitrary: clk) simp_all

lemma mapToDto_nth:
  "k < length xs \<Longrightarrow>
   mapToDto xs clk ! k = fst (toDto (xs ! k) (later (length (filter isRunning (take k xs))) clk))"
proof (induction xs arbitrary: k clk)
  case Nil
  then show ?case by simp
next
  case (Cons x xs)
  show ?case
  proof (cases k)
    case 0
    then show ?thesis by simp
  next
    case (Suc m)
    with Cons.prems have m: "m < length xs" by simp
    show ?thesis
      using Cons.IH [OF m, of "snd (toDto x clk)"] Suc
      by (simp add: toDto_clock later_later)
  qed
qed

lemma set_findOrdered: "set (findOrdered s) = {r \<in> set (rows s). deletedAt r = None}"
  by (auto simp: findOrdered_def)

lemma softDelete_no_live:
  assumes m: "r \<in> set (rows (softDelete i t s))" and l: "deletedAt r = None"
  shows "sw_id r \<noteq> i"
proof
  assume i: "sw_id r = i"
  from m have "r \<in> (\<lambda>x. if sw_id x = i then x\<lparr>deletedAt := Some t\<rparr> else x) ` set (rows s)"
    by (simp add: softDelete_def)
  then obtain x where r: "r = (if sw_id x = i then x\<lparr>deletedAt := Some t\<rparr> else x)"
    by (rule imageE)
  show False
  proof (cases "sw_id x = i")
    case True
    with r have "deletedAt r = Some t" by simp
    with l show False by simp
  next
    case False
    with r have "r = x" by simp
    with i False show False by simp
  qed
qed

subsection \<open>The invariant, one operation at a time\<close>

lemma store_inv_save: "store_inv s \<Longrightarrow> row_inv e \<Longrightarrow> store_inv (save e s)"
  by (auto simp: store_inv_def save_def list_all_iff)

lemma store_inv_softDelete: "store_inv s \<Longrightarrow> store_inv (softDelete i t s)"
  by (auto simp: store_inv_def softDelete_def list_all_iff row_inv_def)

lemma store_inv_found: "store_inv s \<Longrightarrow> findOne i s = Some r \<Longrightarrow> row_inv r"
  using findOne_SomeD [of i s r] by (auto simp: store_inv_def list_all_iff)

lemma store_inv_start: "store_inv s \<Longrightarrow> store_inv (snd (start i s clk))"
  by (cases rule: start_cases [of i s clk]) (simp_all add: store_inv_save row_inv_def)

lemma store_inv_stop: "store_inv s \<Longrightarrow> store_inv (snd (stop i s clk))"
  by (cases rule: stop_cases [of i s clk]) (simp_all add: store_inv_save row_inv_def)

lemma store_inv_update: "store_inv s \<Longrightarrow> store_inv (snd (update i p s clk))"
proof (cases rule: update_cases [of i s p clk])
  case (ok r)
  assume "store_inv s"
  moreover from this ok(1) have "row_inv (patch r p)"
    using store_inv_found [of s i r] by (simp add: row_inv_def)
  ultimately show ?thesis using ok by (simp add: store_inv_save)
qed simp_all

lemma store_inv_delete: "store_inv s \<Longrightarrow> store_inv (snd (delete i s t))"
  by (cases rule: delete_cases [of i s t]) (simp_all add: store_inv_softDelete)

lemma store_inv_create: "store_inv s \<Longrightarrow> store_inv (snd (create d s clk))"
  by (simp add: create_eq store_inv_def row_inv_def)

text \<open>The equations that evaluate the service on a concrete store.\<close>

lemmas eval_defs = findOne_def findOrdered_def save_def saveNew_def softDelete_def
  findAll_def create_def start_def stop_def update_def delete_def patch_def
  toDto_def calculateElapsed_def

lemma update_rejects_iff:
  "fst (update i p s clk) = Inl BadRequestException \<longleftrightarrow>
     (\<exists>r e. findOne i s = Some r \<and> isRunning r \<and> upd_elapsed p = Some e \<and> e \<noteq> 0)"
proof (cases rule: update_cases [of i s p clk])
  case missing
  then show ?thesis by simp
next
  case (rejected r)
  then show ?thesis by (cases "upd_elapsed p") simp_all
next
  case (ok r)
  then show ?thesis by (cases "upd_elapsed p") auto
qed

section \<open>update\<close>

text \<open>
  C2. The claim asks that a patch with an \<open>elapsed\<close> value, zero included, is refused
  while the stopwatch runs. The guard of line 123 tests the truthiness of
  \<^verbatim>\<open>updateDto.elapsed\<close>, so \<open>elapsed = 0\<close> passes it: on the running stopwatch of stored
  \<open>elapsed = 100\<close> the patch \<open>{elapsed: 0}\<close> succeeds and the stored value becomes 0.
\<close>

theorem update_zero_elapsed_while_running:
  "update 1 \<lparr>upd_name = None, upd_elapsed = Some 0\<rparr> (one_row (A_running 100 0)) (readings 0 []) =
     (Inr \<lparr>dto_id = 1, dto_name = ''A'', dto_elapsed = 0, dto_isRunning = True\<rparr>,
      one_row (A_running 0 0))"
  by (simp add: eval_defs)

section \<open>start\<close>

text \<open>
  C5, as amended. \<open>start\<close> fails with NotFound exactly when no live record has the
  identifier, and with InvalidState exactly when the record runs already; a failure
  leaves the store as it was. On success the record gets \<open>isRunning = true\<close> and
  \<open>startTime = now\<close> and is saved. The view is built from a second reading of the clock,
  taken after the save: its \<open>elapsed\<close> is the stored one plus the whole seconds between
  the two readings, and equals the stored one exactly when the second reading is less
  than a second after the first and not before it.
\<close>

theorem start_contract:
  "(fst (start i s clk) = Inl NotFoundException \<longleftrightarrow>
      \<not> (\<exists>r \<in> set (rows s). sw_id r = i \<and> deletedAt r = None)) \<and>
   (fst (start i s clk) = Inl BadRequestException \<longleftrightarrow>
      (\<exists>r. findOne i s = Some r \<and> isRunning r)) \<and>
   ((\<exists>e. fst (start i s clk) = Inl e) \<longrightarrow> snd (start i s clk) = s) \<and>
   (findOne i s = Some r \<and> \<not> isRunning r \<longrightarrow>
      findOne i (snd (start i s clk)) = Some (r\<lparr>isRunning := True, startTime := Some (clk 0)\<rparr>) \<and>
      rows (snd (start i s clk)) =
        map (\<lambda>x. if sw_id x = i then r\<lparr>isRunning := True, startTime := Some (clk 0)\<rparr> else x) (rows s) \<and>
      fst (start i s clk) =
        Inr \<lparr>dto_id = i, dto_name = name r,
             dto_elapsed = elapsed r + (clk 1 - clk 0) div 1000, dto_isRunning = True\<rparr> \<and>
      (elapsed r + (clk 1 - clk 0) div 1000 = elapsed r \<longleftrightarrow> clk 0 \<le> clk 1 \<and> clk 1 < clk 0 + 1000))"
proof (intro conjI impI)
  show "fst (start i s clk) = Inl NotFoundException \<longleftrightarrow>
      \<not> (\<exists>r \<in> set (rows s). sw_id r = i \<and> deletedAt r = None)"
    unfolding findOne_None_iff [symmetric]
    by (cases rule: start_cases [of i s clk]) simp_all
  show "fst (start i s clk) = Inl BadRequestException \<longleftrightarrow>
      (\<exists>r. findOne i s = Some r \<and> isRunning r)"
    by (cases rule: start_cases [of i s clk]) auto
  show "snd (start i s clk) = s" if "\<exists>e. fst (start i s clk) = Inl e"
    using that by (cases rule: start_cases [of i s clk]) auto
next
  assume a: "findOne i s = Some r \<and> \<not> isRunning r"
  let ?r = "r\<lparr>isRunning := True, startTime := Some (clk 0)\<rparr>"
  from a have st: "start i s clk = (Inr (fst (toDto ?r (\<lambda>n. clk (Suc n)))), save ?r s)"
    by (simp add: start_stopped)
  from a have id: "sw_id r = i" and live: "deletedAt r = None"
    using findOne_SomeD [of i s r] by simp_all
  show "findOne i (snd (start i s clk)) = Some ?r"
    using a id live by (simp add: st findOne_save [of i s r])
  show "rows (snd (start i s clk)) = map (\<lambda>x. if sw_id x = i then ?r else x) (rows s)"
    using a id by (simp add: st rows_save_found [of i s r])
  show "fst (start i s clk) =
        Inr \<lparr>dto_id = i, dto_name = name r,
             dto_elapsed = elapsed r + (clk 1 - clk 0) div 1000, dto_isRunning = True\<rparr>"
    using id by (simp add: st toDto_fst calculateElapsed_running [where st = "clk 0"])
  show "elapsed r + (clk 1 - clk 0) div 1000 = elapsed r \<longleftrightarrow> clk 0 \<le> clk 1 \<and> clk 1 < clk 0 + 1000"
    by (auto simp: div_eq_0_iff zdiv_eq_0_iff)
qed

theorem start_contract_witness:
  "findOne 1 (one_row (A_stopped 10)) = Some (A_stopped 10) \<and> \<not> isRunning (A_stopped 10) \<and>
   fst (start 1 (one_row (A_stopped 10)) (readings 1400 [1000])) =
     Inr \<lparr>dto_id = 1, dto_name = ''A'', dto_elapsed = 10, dto_isRunning = True\<rparr> \<and>
   findOne 1 (snd (start 1 (one_row (A_stopped 10)) (readings 1400 [1000]))) =
     Some (A_running 10 1000) \<and>
   fst (start 1 (one_row (A_running 10 0)) (readings 1400 [1000])) = Inl BadRequestException \<and>
   snd (start 1 (one_row (A_running 10 0)) (readings 1400 [1000])) = one_row (A_running 10 0) \<and>
   fst (start 7 (one_row (A_stopped 10)) (readings 1400 [1000])) = Inl NotFoundException"
  using start_contract [of 1 "one_row (A_stopped 10)" "readings 1400 [1000]" "A_stopped 10"]
    start_contract [of 1 "one_row (A_running 10 0)" "readings 1400 [1000]" "A_running 10 0"]
    start_contract [of 7 "one_row (A_stopped 10)" "readings 1400 [1000]" "A_stopped 10"]
  by (simp add: eval_defs)

text \<open>
  C5 as stated fails: when the save takes a second, the view of a stopwatch of stored
  \<open>elapsed = 10\<close> shows 11 while the stored value is still 10.
\<close>

theorem start_view_counterexample:
  "findOne 1 (one_row (A_stopped 10)) = Some (A_stopped 10) \<and>
   fst (start 1 (one_row (A_stopped 10)) (readings 0 [0, 1000])) =
     Inr \<lparr>dto_id = 1, dto_name = ''A'', dto_elapsed = 11, dto_isRunning = True\<rparr> \<and>
   findOne 1 (snd (start 1 (one_row (A_stopped 10)) (readings 0 [0, 1000]))) =
     Some (A_running 10 0)"
  by (simp add: eval_defs)

section \<open>stop\<close>

text \<open>
  C4. \<open>stop\<close> fails with NotFound exactly when no live record has the identifier, and
  with InvalidState exactly when the record is not running; a failure leaves the store
  as it was. On success the stored \<open>elapsed\<close> becomes the old one plus the floor of the
  seconds from \<open>startTime\<close> to now, \<open>isRunning\<close> becomes false and \<open>startTime\<close> null.
  No other operation moves a stored \<open>elapsed\<close> by the clock: after \<open>start\<close> and \<open>delete\<close>
  every live record has the \<open>elapsed\<close> it had, after \<open>update\<close> it has that or the value of
  the patch, and after \<open>create\<close> it has that or the 0 of a new record.
\<close>

theorem stop_contract:
  "(fst (stop i s clk) = Inl NotFoundException \<longleftrightarrow>
      \<not> (\<exists>r \<in> set (rows s). sw_id r = i \<and> deletedAt r = None)) \<and>
   (fst (stop i s clk) = Inl BadRequestException \<longleftrightarrow>
      (\<exists>r. findOne i s = Some r \<and> \<not> isRunning r)) \<and>
   ((\<exists>e. fst (stop i s clk) = Inl e) \<longrightarrow> snd (stop i s clk) = s) \<and>
   (findOne i s = Some r \<and> isRunning r \<and> startTime r = Some st \<longrightarrow>
      findOne i (snd (stop i s clk)) =
        Some (r\<lparr>elapsed := elapsed r + \<lfloor>(of_int (clk 0 - st) :: real) / 1000\<rfloor>,
                isRunning := False, startTime := None\<rparr>) \<and>
      fst (stop i s clk) =
        Inr \<lparr>dto_id = i, dto_name = name r,
             dto_elapsed = elapsed r + \<lfloor>(of_int (clk 0 - st) :: real) / 1000\<rfloor>,
             dto_isRunning = False\<rparr>) \<and>
   (\<forall>j r'. findOne j (snd (start i s clk)) = Some r' \<longrightarrow>
      (\<exists>r. findOne j s = Some r \<and> elapsed r' = elapsed r)) \<and>
   (\<forall>j r' t. findOne j (snd (delete i s t)) = Some r' \<longrightarrow>
      (\<exists>r. findOne j s = Some r \<and> elapsed r' = elapsed r)) \<and>
   (\<forall>j r' p. findOne j (snd (update i p s clk)) = Some r' \<longrightarrow>
      (\<exists>r. findOne j s = Some r \<and> (elapsed r' = elapsed r \<or> upd_elapsed p = Some (elapsed r')))) \<and>
   (\<forall>j r' d. findOne j (snd (create d s clk)) = Some r' \<longrightarrow>
      (\<exists>r. findOne j s = Some r \<and> elapsed r' = elapsed r) \<or> elapsed r' = 0)"
proof (intro conjI impI allI)
  show "fst (stop i s clk) = Inl NotFoundException \<longleftrightarrow>
      \<not> (\<exists>r \<in> set (rows s). sw_id r = i \<and> deletedAt r = None)"
    unfolding findOne_None_iff [symmetric]
    by (cases rule: stop_cases [of i s clk]) simp_all
  show "fst (stop i s clk) = Inl BadRequestException \<longleftrightarrow>
      (\<exists>r. findOne i s = Some r \<and> \<not> isRunning r)"
    by (cases rule: stop_cases [of i s clk]) auto
  show "snd (stop i s clk) = s" if "\<exists>e. fst (stop i s clk) = Inl e"
    using that by (cases rule: stop_cases [of i s clk]) auto
  show "\<exists>r. findOne j s = Some r \<and> elapsed r' = elapsed r"
    if "findOne j (snd (start i s clk)) = Some r'" for j r'
    using that by (rule start_keeps_elapsed)
  show "\<exists>r. findOne j s = Some r \<and> elapsed r' = elapsed r"
    if "findOne j (snd (delete i s t)) = Some r'" for j r' t
    using delete_keeps_elapsed [OF that] by simp
  show "\<exists>r. findOne j s = Some r \<and> (elapsed r' = elapsed r \<or> upd_elapsed p = Some (elapsed r'))"
    if "findOne j (snd (update i p s clk)) = Some r'" for j r' p
    using that by (rule update_keeps_elapsed)
  show "(\<exists>r. findOne j s = Some r \<and> elapsed r' = elapsed r) \<or> elapsed r' = 0"
    if "findOne j (snd (create d s clk)) = Some r'" for j r' d
    using create_keeps_elapsed [OF that] by auto
next
  assume a: "findOne i s = Some r \<and> isRunning r \<and> startTime r = Some st"
  have fl: "\<lfloor>(of_int (clk 0 - st) :: real) / 1000\<rfloor> = (clk 0 - st) div 1000"
    using floor_seconds [of 0 "clk 0 - st"] by (simp del: of_int_diff)
  from a have ce: "fst (calculateElapsed r clk) = elapsed r + (clk 0 - st) div 1000"
    by (simp add: calculateElapsed_running)
  let ?r = "r\<lparr>elapsed := elapsed r + (clk 0 - st) div 1000, isRunning := False, startTime := None\<rparr>"
  from a ce have st: "stop i s clk =
      (Inr \<lparr>dto_id = sw_id r, dto_name = name r,
            dto_elapsed = elapsed r + (clk 0 - st) div 1000, dto_isRunning = False\<rparr>, save ?r s)"
    using stop_running [of i s r clk] by simp
  from a have id: "sw_id r = i" and live: "deletedAt r = None"
    using findOne_SomeD [of i s r] by simp_all
  show "findOne i (snd (stop i s clk)) =
        Some (r\<lparr>elapsed := elapsed r + \<lfloor>(of_int (clk 0 - st) :: real) / 1000\<rfloor>,
                isRunning := False, startTime := None\<rparr>)"
    unfolding fl using a id live by (simp add: st findOne_save [of i s r])
  show "fst (stop i s clk) =
        Inr \<lparr>dto_id = i, dto_name = name r,
             dto_elapsed = elapsed r + \<lfloor>(of_int (clk 0 - st) :: real) / 1000\<rfloor>,
             dto_isRunning = False\<rparr>"
    unfolding fl using id by (simp add: st)
qed

theorem stop_contract_witness:
  "findOne 1 (one_row (A_running 10 1000)) = Some (A_running 10 1000) \<and>
   isRunning (A_running 10 1000) \<and> startTime (A_running 10 1000) = Some 1000 \<and>
   fst (stop 1 (one_row (A_running 10 1000)) (readings 6500 [])) =
     Inr \<lparr>dto_id = 1, dto_name = ''A'', dto_elapsed = 15, dto_isRunning = False\<rparr> \<and>
   findOne 1 (snd (stop 1 (one_row (A_running 10 1000)) (readings 6500 []))) = Some (A_stopped 15) \<and>
   fst (stop 1 (one_row (A_stopped 10)) (readings 6500 [])) = Inl BadRequestException \<and>
   snd (stop 1 (one_row (A_stopped 10)) (readings 6500 [])) = one_row (A_stopped 10) \<and>
   fst (stop 7 (one_row (A_stopped 10)) (readings 6500 [])) = Inl NotFoundException \<and>
   findOne 1 (snd (start 1 (one_row (A_stopped 10)) (readings 6500 []))) = Some (A_running 10 6500)"
  using stop_contract [of 1 "one_row (A_running 10 1000)" "readings 6500 []" "A_running 10 1000" 1000]
    stop_contract [of 1 "one_row (A_stopped 10)" "readings 6500 []" "A_stopped 10" 0]
    stop_contract [of 7 "one_row (A_stopped 10)" "readings 6500 []" "A_stopped 10" 0]
  by (simp add: eval_defs)

section \<open>A start followed by a stop\<close>

text \<open>
  C3, as amended. When a stopwatch of stored \<open>elapsed = E\<close> is started and then stopped,
  both with success, the stored \<open>elapsed\<close> after the stop is \<open>E\<close> plus the floor of the
  seconds between the reading of the clock at the start and the one at the stop; it is
  at least \<open>E\<close> exactly when the reading at the stop is not earlier than the one at the
  start.
\<close>

theorem start_stop_cycle:
  "findOne i s = Some r \<and> fst (start i s clk1) = Inr v1 \<and>
   fst (stop i (snd (start i s clk1)) clk2) = Inr v2 \<longrightarrow>
     (\<exists>r'. findOne i (snd (stop i (snd (start i s clk1)) clk2)) = Some r' \<and>
        elapsed r' = elapsed r + (clk2 0 - clk1 0) div 1000 \<and>
        (elapsed r \<le> elapsed r' \<longleftrightarrow> clk1 0 \<le> clk2 0))"
proof
  assume a: "findOne i s = Some r \<and> fst (start i s clk1) = Inr v1 \<and>
   fst (stop i (snd (start i s clk1)) clk2) = Inr v2"
  let ?started = "r\<lparr>isRunning := True, startTime := Some (clk1 0)\<rparr>"
  let ?e = "elapsed r + (clk2 0 - clk1 0) div 1000"
  let ?stopped = "?started\<lparr>elapsed := ?e, isRunning := False, startTime := None\<rparr>"
  from a have id: "sw_id r = i" and live: "deletedAt r = None"
    using findOne_SomeD [of i s r] by simp_all
  have nr: "\<not> isRunning r"
  proof
    assume "isRunning r"
    with a have "start i s clk1 = (Inl BadRequestException, s)" by (simp add: start_running)
    with a show False by simp
  qed
  with a have s1: "snd (start i s clk1) = save ?started s"
    by (simp add: start_stopped)
  have f1: "findOne i (save ?started s) = Some ?started"
    using a id live by (simp add: findOne_save [of i s r])
  have ce: "fst (calculateElapsed ?started clk2) = ?e"
    by (simp add: calculateElapsed_running [where st = "clk1 0"])
  have s2: "snd (stop i (save ?started s) clk2) = save ?stopped (save ?started s)"
    using stop_running [OF f1, of clk2] ce by simp
  have f2: "findOne i (save ?stopped (save ?started s)) = Some ?stopped"
    using f1 id live by (simp add: findOne_save [of i "save ?started s" ?started])
  have "0 \<le> (clk2 0 - clk1 0) div 1000 \<longleftrightarrow> clk1 0 \<le> clk2 0"
    by (simp add: pos_imp_zdiv_nonneg_iff)
  with f2 show "\<exists>r'. findOne i (snd (stop i (snd (start i s clk1)) clk2)) = Some r' \<and>
        elapsed r' = elapsed r + (clk2 0 - clk1 0) div 1000 \<and>
        (elapsed r \<le> elapsed r' \<longleftrightarrow> clk1 0 \<le> clk2 0)"
    by (simp add: s1 s2)
qed

theorem start_stop_cycle_witness:
  "findOne 1 (one_row (A_stopped 10)) = Some (A_stopped 10) \<and>
   fst (start 1 (one_row (A_stopped 10)) (readings 1000 [])) =
     Inr \<lparr>dto_id = 1, dto_name = ''A'', dto_elapsed = 10, dto_isRunning = True\<rparr> \<and>
   fst (stop 1 (snd (start 1 (one_row (A_stopped 10)) (readings 1000 []))) (readings 6500 [])) =
     Inr \<lparr>dto_id = 1, dto_name = ''A'', dto_elapsed = 15, dto_isRunning = False\<rparr> \<and>
   findOne 1 (snd (stop 1 (snd (start 1 (one_row (A_stopped 10)) (readings 1000 [])))
     (readings 6500 []))) = Some (A_stopped 15)"
  using start_stop_cycle [of 1 "one_row (A_stopped 10)" "A_stopped 10" "readings 1000 []"
      "\<lparr>dto_id = 1, dto_name = ''A'', dto_elapsed = 10, dto_isRunning = True\<rparr>"
      "readings 6500 []"
      "\<lparr>dto_id = 1, dto_name = ''A'', dto_elapsed = 15, dto_isRunning = False\<rparr>"]
  by (simp add: eval_defs)

text \<open>
  C3 as stated fails for a clock that is set back between the two operations: started
  at 5000 ms and stopped at 0 ms, the stopwatch of stored \<open>elapsed = 10\<close> ends at 5.
\<close>

theorem start_stop_cycle_counterexample:
  "findOne 1 (one_row (A_stopped 10)) = Some (A_stopped 10) \<and>
   fst (start 1 (one_row (A_stopped 10)) (readings 5000 [])) =
     Inr \<lparr>dto_id = 1, dto_name = ''A'', dto_elapsed = 10, dto_isRunning = True\<rparr> \<and>
   fst (stop 1 (snd (start 1 (one_row (A_stopped 10)) (readings 5000 []))) (readings 0 [])) =
     Inr \<lparr>dto_id = 1, dto_name = ''A'', dto_elapsed = 5, dto_isRunning = False\<rparr> \<and>
   findOne 1 (snd (stop 1 (snd (start 1 (one_row (A_stopped 10)) (readings 5000 [])))
     (readings 0 []))) = Some (A_stopped 5) \<and>
   elapsed (A_stopped 5) < elapsed (A_stopped 10)"
  by (simp add: eval_defs)

section \<open>The invariant\<close>

text \<open>
  C6. If \<open>isRunning\<close> holds exactly when \<open>startTime\<close> is non-null on every record of the
  store, deleted ones included, then it does so after \<open>create\<close>, \<open>start\<close>, \<open>stop\<close>,
  \<open>update\<close> and \<open>delete\<close>, whatever their arguments and whether they succeed or fail.
\<close>

theorem invariant_preserved:
  "store_inv s \<longrightarrow>
     store_inv (snd (create d s clk)) \<and>
     store_inv (snd (start i s clk)) \<and>
     store_inv (snd (stop i s clk)) \<and>
     store_inv (snd (update i p s clk)) \<and>
     store_inv (snd (delete i s t))"
  by (simp add: store_inv_create store_inv_start store_inv_stop store_inv_update store_inv_delete)

theorem invariant_preserved_witness:
  "store_inv (one_row (A_stopped 10)) \<and>
   store_inv (snd (create \<lparr>new_name = ''B''\<rparr> (one_row (A_stopped 10)) (readings 0 []))) \<and>
   store_inv (snd (start 1 (one_row (A_stopped 10)) (readings 0 []))) \<and>
   store_inv (snd (stop 1 (one_row (A_stopped 10)) (readings 0 []))) \<and>
   store_inv (snd (update 1 \<lparr>upd_name = Some ''C'', upd_elapsed = Some 7\<rparr>
      (one_row (A_stopped 10)) (readings 0 []))) \<and>
   store_inv (snd (delete 1 (one_row (A_stopped 10)) 0)) \<and>
   snd (start 1 (one_row (A_stopped 10)) (readings 0 [])) = one_row (A_running 10 0)"
  using invariant_preserved [of "one_row (A_stopped 10)" "\<lparr>new_name = ''B''\<rparr>" "readings 0 []" 1
      "\<lparr>upd_name = Some ''C'', upd_elapsed = Some 7\<rparr>" 0]
  by (simp add: eval_defs store_inv_def row_inv_def)

section \<open>list\<close>

text \<open>
  C7. \<open>findAll\<close> returns one view for each live record and for no other: the records
  it converts are a permutation of the non-deleted rows, the identifiers of the views
  ascend, and the view at each position carries the identifier, name and running flag
  of its record, with the \<open>elapsed\<close> that the shared computation gives at the clock
  reading taken for that record. It has no failing branch, and the empty store gives
  the empty list.
\<close>

theorem findAll_contract:
  "length (findAll s clk) = length (findOrdered s) \<and>
   mset (findOrdered s) = mset (filter (\<lambda>r. deletedAt r = None) (rows s)) \<and>
   sorted (map dto_id (findAll s clk)) \<and>
   (\<forall>k < length (findOrdered s).
      findAll s clk ! k =
        \<lparr>dto_id = sw_id (findOrdered s ! k), dto_name = name (findOrdered s ! k),
         dto_elapsed = fst (calculateElapsed (findOrdered s ! k)
            (later (length (filter isRunning (take k (findOrdered s)))) clk)),
         dto_isRunning = isRunning (findOrdered s ! k)\<rparr>) \<and>
   (rows s = [] \<longrightarrow> findAll s clk = [])"
proof (intro conjI allI impI)
  show "length (findAll s clk) = length (findOrdered s)"
    by (simp add: findAll_def length_mapToDto)
  show "mset (findOrdered s) = mset (filter (\<lambda>r. deletedAt r = None) (rows s))"
    by (simp add: findOrdered_def)
  show "sorted (map dto_id (findAll s clk))"
    by (simp add: findAll_def map_dto_id_mapToDto findOrdered_def)
  show "findAll s clk ! k =
        \<lparr>dto_id = sw_id (findOrdered s ! k), dto_name = name (findOrdered s ! k),
         dto_elapsed = fst (calculateElapsed (findOrdered s ! k)
            (later (length (filter isRunning (take k (findOrdered s)))) clk)),
         dto_isRunning = isRunning (findOrdered s ! k)\<rparr>"
    if "k < length (findOrdered s)" for k
    using mapToDto_nth [OF that, of clk] by (simp add: findAll_def toDto_fst)
  show "findAll s clk = []" if "rows s = []"
    using that by (simp add: findAll_def findOrdered_def)
qed

theorem findAll_contract_witness:
  "findAll \<lparr>rows = [\<lparr>sw_id = 2, name = ''B'', isRunning = True, elapsed = 3,
                        startTime = Some 1000, deletedAt = None\<rparr>,
                      A_stopped 10,
                      \<lparr>sw_id = 3, name = ''C'', isRunning = False, elapsed = 8,
                        startTime = None, deletedAt = Some 500\<rparr>], nextId = 4\<rparr>
      (readings 3500 []) =
     [\<lparr>dto_id = 1, dto_name = ''A'', dto_elapsed = 10, dto_isRunning = False\<rparr>,
      \<lparr>dto_id = 2, dto_name = ''B'', dto_elapsed = 5, dto_isRunning = True\<rparr>] \<and>
   findAll \<lparr>rows = [], nextId = 1\<rparr> (readings 3500 []) = []"
  using findAll_contract [of "\<lparr>rows = [\<lparr>sw_id = 2, name = ''B'', isRunning = True, elapsed = 3,
                        startTime = Some 1000, deletedAt = None\<rparr>,
                      A_stopped 10,
                      \<lparr>sw_id = 3, name = ''C'', isRunning = False, elapsed = 8,
                        startTime = None, deletedAt = Some 500\<rparr>], nextId = 4\<rparr>" "readings 3500 []"]
    findAll_contract [of "\<lparr>rows = [], nextId = 1\<rparr>" "readings 3500 []"]
  by (simp add: eval_defs)

section \<open>delete\<close>

text \<open>
  C8. \<open>delete\<close> fails with NotFound exactly when no live record has the identifier, and
  with InvalidState exactly when the record is running; a failure leaves the store as
  it was, the record live. Otherwise the record is marked deleted and kept, the answer
  is \<open>ok\<close>, the identifier no longer finds a live record and is the identifier of no
  view that \<open>findAll\<close> returns afterwards.
\<close>

theorem delete_contract:
  "(fst (delete i s t) = Inl NotFoundException \<longleftrightarrow>
      \<not> (\<exists>r \<in> set (rows s). sw_id r = i \<and> deletedAt r = None)) \<and>
   (fst (delete i s t) = Inl BadRequestException \<longleftrightarrow>
      (\<exists>r. findOne i s = Some r \<and> isRunning r)) \<and>
   ((\<exists>e. fst (delete i s t) = Inl e) \<longrightarrow> snd (delete i s t) = s) \<and>
   (findOne i s = Some r \<and> \<not> isRunning r \<longrightarrow>
      fst (delete i s t) = Inr ''ok'' \<and>
      rows (snd (delete i s t)) =
        map (\<lambda>x. if sw_id x = i then x\<lparr>deletedAt := Some t\<rparr> else x) (rows s) \<and>
      findOne i (snd (delete i s t)) = None \<and>
      i \<notin> set (map dto_id (findAll (snd (delete i s t)) clk)))"
proof (intro conjI impI)
  show "fst (delete i s t) = Inl NotFoundException \<longleftrightarrow>
      \<not> (\<exists>r \<in> set (rows s). sw_id r = i \<and> deletedAt r = None)"
    unfolding findOne_None_iff [symmetric]
    by (cases rule: delete_cases [of i s t]) simp_all
  show "fst (delete i s t) = Inl BadRequestException \<longleftrightarrow>
      (\<exists>r. findOne i s = Some r \<and> isRunning r)"
    by (cases rule: delete_cases [of i s t]) auto
  show "snd (delete i s t) = s" if "\<exists>e. fst (delete i s t) = Inl e"
    using that by (cases rule: delete_cases [of i s t]) auto
next
  assume a: "findOne i s = Some r \<and> \<not> isRunning r"
  then have d: "delete i s t = (Inr ''ok'', softDelete i t s)"
    by (simp add: delete_stopped)
  show "fst (delete i s t) = Inr ''ok''"
    by (simp add: d)
  show "rows (snd (delete i s t)) =
        map (\<lambda>x. if sw_id x = i then x\<lparr>deletedAt := Some t\<rparr> else x) (rows s)"
    by (simp add: d softDelete_def)
  show "findOne i (snd (delete i s t)) = None"
    by (simp add: d findOne_softDelete)
  show "i \<notin> set (map dto_id (findAll (snd (delete i s t)) clk))"
  proof
    assume "i \<in> set (map dto_id (findAll (snd (delete i s t)) clk))"
    then have "i \<in> sw_id ` set (findOrdered (softDelete i t s))"
      by (simp add: d findAll_def map_dto_id_mapToDto)
    then obtain x where x: "x \<in> set (findOrdered (softDelete i t s))" and i: "sw_id x = i"
      by blast
    from x have "x \<in> set (rows (softDelete i t s))" and "deletedAt x = None"
      by (simp_all add: set_findOrdered)
    from softDelete_no_live [OF this] i show False by simp
  qed
qed

theorem delete_contract_witness:
  "findOne 1 (one_row (A_stopped 10)) = Some (A_stopped 10) \<and> \<not> isRunning (A_stopped 10) \<and>
   delete 1 (one_row (A_stopped 10)) 9000 =
     (Inr ''ok'', one_row ((A_stopped 10)\<lparr>deletedAt := Some 9000\<rparr>)) \<and>
   findAll (snd (delete 1 (one_row (A_stopped 10)) 9000)) (readings 9000 []) = [] \<and>
   delete 1 (one_row (A_running 10 0)) 9000 = (Inl BadRequestException, one_row (A_running 10 0)) \<and>
   fst (delete 7 (one_row (A_stopped 10)) 9000) = Inl NotFoundException"
  using delete_contract [of 1 "one_row (A_stopped 10)" 9000 "A_stopped 10" "readings 9000 []"]
    delete_contract [of 1 "one_row (A_running 10 0)" 9000 "A_running 10 0" "readings 9000 []"]
    delete_contract [of 7 "one_row (A_stopped 10)" 9000 "A_stopped 10" "readings 9000 []"]
  by (simp add: eval_defs)

section \<open>create\<close>

text \<open>
  C9. For a non-empty name, \<open>create\<close> appends one record to the store, whatever the
  store holds: its identifier is the next one of the store's sequence, its name the
  given one, \<open>isRunning = false\<close>, \<open>elapsed = 0\<close>, \<open>startTime\<close> null; the view returned
  shows that identifier and name, \<open>elapsed = 0\<close> and \<open>isRunning = false\<close>.
\<close>

theorem create_contract:
  "new_name d \<noteq> [] \<longrightarrow>
     rows (snd (create d s clk)) =
       rows s @ [\<lparr>sw_id = nextId s, name = new_name d, isRunning = False, elapsed = 0,
                  startTime = None, deletedAt = None\<rparr>] \<and>
     nextId (snd (create d s clk)) = nextId s + 1 \<and>
     fst (create d s clk) =
       \<lparr>dto_id = nextId s, dto_name = new_name d, dto_elapsed = 0, dto_isRunning = False\<rparr>"
  by (simp add: create_eq)

theorem create_contract_witness:
  "new_name \<lparr>new_name = ''B''\<rparr> \<noteq> [] \<and>
   create \<lparr>new_name = ''B''\<rparr> (one_row (A_running 10 0)) (readings 0 []) =
     (\<lparr>dto_id = 2, dto_name = ''B'', dto_elapsed = 0, dto_isRunning = False\<rparr>,
      \<lparr>rows = [A_running 10 0,
                \<lparr>sw_id = 2, name = ''B'', isRunning = False, elapsed = 0,
                  startTime = None, deletedAt = None\<rparr>],
        nextId = 3\<rparr>)"
  using create_contract [of "\<lparr>new_name = ''B''\<rparr>" "one_row (A_running 10 0)" "readings 0 []"]
  by (simp add: eval_defs Let_def)

end
